theory Spec2Isabelle
  imports Main "HOL-Library.AList"
begin

section \<open>Values and objects of the host language\<close>

text \<open>
  \<^verbatim>\<open>Utils.ts\<close> works on untyped JavaScript values. A value is one of the primitives, an
  array, or an object; functions are not values here. Numbers are the integer-valued ones
  (\<open>NaN\<close>, fractions and infinities are outside this development), strings are byte
  strings.

  An object carries
  \<^item> \<open>ctor\<close>: the name of the constructor that the object inherits from its class,
    and nothing for an object without a prototype (\<^verbatim>\<open>Object.create(null)\<close>);
  \<^item> \<open>inst\<close>: the library classes the object is an \<^verbatim>\<open>instanceof\<close> (a \<^verbatim>\<open>Collection\<close>
    lists \<open>ArrayCollection\<close>, its base class);
  \<^item> \<open>own\<close>: its own enumerable properties, in the order \<^verbatim>\<open>Object.keys\<close> lists them;
  \<^item> \<open>hid\<close>: the properties a read \<^verbatim>\<open>o[k]\<close> or a test \<^verbatim>\<open>k in o\<close> finds but
    \<^verbatim>\<open>Object.keys\<close> does not list: non-enumerable own properties, values of getters and
    members inherited from the class (\<^verbatim>\<open>__entity\<close>, \<^verbatim>\<open>__prepared\<close>, the key getter of a
    \<^verbatim>\<open>Reference\<close>). The members of \<^verbatim>\<open>Object.prototype\<close> itself are not listed.

  Values are trees: two values never share a mutable part.
\<close>

datatype builtin = Date | RegExp | Buffer | Reference | ArrayCollection

datatype 'v obj = MkObj (ctor: "string option") (inst: "builtin list")
  (own: "(string \<times> 'v) list") (hid: "(string \<times> 'v) list")

datatype jsval = Undefined | Null | Bool bool | Num int | Str string
  | Arr "jsval list" | Obj "jsval obj"

text \<open>The object literal \<^verbatim>\<open>{k1: v1, ...}\<close>.\<close>

definition literal :: "(string \<times> 'v) list \<Rightarrow> 'v obj" where
  "literal ps = MkObj (Some ''Object'') [] ps []"

text \<open>\<^verbatim>\<open>!!v\<close>, \<^verbatim>\<open>typeof v\<close>, \<^verbatim>\<open>Array.isArray(v)\<close> and \<^verbatim>\<open>v instanceof cls\<close>.\<close>

fun truthy :: "jsval \<Rightarrow> bool" where
  "truthy Undefined = False"
| "truthy Null = False"
| "truthy (Bool b) = b"
| "truthy (Num n) = (n \<noteq> 0)"
| "truthy (Str s) = (s \<noteq> [])"
| "truthy (Arr xs) = True"
| "truthy (Obj ob) = True"

fun typeof :: "jsval \<Rightarrow> string" where
  "typeof Undefined = ''undefined''"
| "typeof Null = ''object''"
| "typeof (Bool b) = ''boolean''"
| "typeof (Num n) = ''number''"
| "typeof (Str s) = ''string''"
| "typeof (Arr xs) = ''object''"
| "typeof (Obj ob) = ''object''"

fun isArray :: "jsval \<Rightarrow> bool" where
  "isArray (Arr xs) = True"
| "isArray v = False"

fun instanceof :: "jsval \<Rightarrow> builtin \<Rightarrow> bool" where
  "instanceof (Obj ob) cls = (cls \<in> set (inst ob))"
| "instanceof v cls = False"

subsection \<open>Reading properties\<close>

text \<open>
  \<^verbatim>\<open>Object.keys(o)\<close>, \<^verbatim>\<open>k in o\<close> and \<^verbatim>\<open>o[k]\<close> on an object. A read finds an own
  enumerable property first, then a hidden one, and is \<^verbatim>\<open>undefined\<close> otherwise.
\<close>

definition keys :: "'v obj \<Rightarrow> string list" where
  "keys ob = map fst (own ob)"

definition hasProperty :: "string \<Rightarrow> 'v obj \<Rightarrow> bool" where
  "hasProperty k ob = (k \<in> set (keys ob) \<or> k \<in> set (map fst (hid ob)))"

definition get :: "jsval obj \<Rightarrow> string \<Rightarrow> jsval" where
  "get ob k = (case map_of (own ob) k of Some v \<Rightarrow> v
               | None \<Rightarrow> (case map_of (hid ob) k of Some v \<Rightarrow> v | None \<Rightarrow> Undefined))"

subsection \<open>Writing properties\<close>

text \<open>
  An ordinary object lists its own keys with the array indices first, in ascending numeric
  order, and every other key after them in the order of creation. An array index is the
  canonical decimal numeral of an integer below \<open>2\<^sup>3\<^sup>2 - 1\<close>. An assignment
  \<^verbatim>\<open>o[k] = v\<close> to an existing own key keeps the key's place; a new key takes the place
  this order gives it.
\<close>

definition isDigit :: "char \<Rightarrow> bool" where
  "isDigit c = (48 \<le> (of_char c :: nat) \<and> (of_char c :: nat) \<le> 57)"

definition digitsVal :: "string \<Rightarrow> nat" where
  "digitsVal s = foldl (\<lambda>n c. 10 * n + ((of_char c :: nat) - 48)) 0 s"

definition isArrayIndex :: "string \<Rightarrow> bool" where
  "isArrayIndex s = (s \<noteq> [] \<and> list_all isDigit s \<and> (length s = 1 \<or> hd s \<noteq> CHR ''0'')
                     \<and> digitsVal s < 4294967295)"

definition keyBefore :: "string \<Rightarrow> string \<Rightarrow> bool" where
  "keyBefore k k' = (if isArrayIndex k' then isArrayIndex k \<and> digitsVal k < digitsVal k' else True)"

definition keyOrdered :: "string list \<Rightarrow> bool" where
  "keyOrdered ks = sorted_wrt keyBefore ks"

text \<open>The own properties of an object that exists: no key twice, keys in the order above.\<close>

definition ownProperties :: "(string \<times> 'v) list \<Rightarrow> bool" where
  "ownProperties ps = (distinct (map fst ps) \<and> keyOrdered (map fst ps))"

fun insertIndex :: "string \<Rightarrow> 'v \<Rightarrow> (string \<times> 'v) list \<Rightarrow> (string \<times> 'v) list" where
  "insertIndex k v [] = [(k, v)]"
| "insertIndex k v (p # ps) =
     (if isArrayIndex (fst p) \<and> digitsVal (fst p) < digitsVal k
      then p # insertIndex k v ps else (k, v) # p # ps)"

definition setOwn :: "string \<Rightarrow> 'v \<Rightarrow> (string \<times> 'v) list \<Rightarrow> (string \<times> 'v) list" where
  "setOwn k v ps =
     (if isArrayIndex k \<and> k \<notin> set (map fst ps) then insertIndex k v ps
      else AList.update k v ps)"

text \<open>
  \<^verbatim>\<open>o[k] = v\<close> (and \<^verbatim>\<open>Object.assign(o, { [k]: v })\<close>) on an object. A key that is
  found only among the hidden properties is taken as inherited: the assignment creates the
  own property.
\<close>

definition assign :: "string \<Rightarrow> 'v \<Rightarrow> 'v obj \<Rightarrow> 'v obj" where
  "assign k v ob = MkObj (ctor ob) (inst ob) (setOwn k v (own ob)) (hid ob)"

section \<open>Type tests\<close>

text \<open>
  \<^verbatim>\<open>isObject(o, not)\<close>, lines 30 to 32:
  \<^verbatim>\<open>!!o && typeof o === 'object' && !Array.isArray(o) && !not.some(cls => o instanceof cls)\<close>.
\<close>

definition isObject :: "jsval \<Rightarrow> builtin list \<Rightarrow> bool" where
  "isObject v excluded =
     (truthy v \<and> typeof v = ''object'' \<and> \<not> isArray v
      \<and> \<not> list_ex (\<lambda>cls. instanceof v cls) excluded)"

definition isString :: "jsval \<Rightarrow> bool" where
  "isString s = (typeof s = ''string'')"

section \<open>Deep equality\<close>

text \<open>
  Modelled from the spec: \<^verbatim>\<open>fast-deep-equal\<close>, which \<^verbatim>\<open>Utils.equals\<close> (lines 51 to 53)
  calls, is an external package. Section 4.1 of the specification: scalars are equal by
  value; arrays when they have the same length and equal elements at every position;
  plain structures when they have the same key set and equal values under every key,
  whatever the order of the keys; special-cased containers by their content. Here two
  objects are compared as objects of one class, and an object of a library class also
  by its hidden content.
\<close>

function (sequential) equals :: "jsval \<Rightarrow> jsval \<Rightarrow> bool" where
  "equals (Arr xs) (Arr ys) = list_all2 equals xs ys"
| "equals (Obj (MkObj c i ps hs)) (Obj (MkObj c' i' ps' hs')) =
     (c = c' \<and> i = i' \<and> length ps = length ps'
      \<and> list_all (\<lambda>(k, v). case map_of ps' k of None \<Rightarrow> False | Some w \<Rightarrow> equals v w) ps
      \<and> (i \<noteq> [] \<longrightarrow> hs = hs'))"
| "equals a b = (a = b)"
  by pat_completeness auto
termination
proof -
  have entry: "size v < Suc (size_list (size_prod (\<lambda>_. 0) size) ps)"
    if "(k, v) \<in> set ps" for k and v :: jsval and ps
    using that by (induction ps) auto
  show ?thesis
    by (relation "measure (\<lambda>(a, b). size a)") (auto simp: termination_simp dest: entry)
qed

section \<open>Differ\<close>

text \<open>
  \<^verbatim>\<open>Utils.diff(a, b)\<close>, lines 92 to 104: the result starts as \<^verbatim>\<open>{}\<close>; for every key
  \<open>k\<close> of \<^verbatim>\<open>Object.keys(b)\<close>, in order, the key is skipped when
  \<^verbatim>\<open>Utils.equals(a[k], b[k])\<close> and \<^verbatim>\<open>ret[k] = b[k]\<close> is stored otherwise.
\<close>

definition diff :: "jsval obj \<Rightarrow> jsval obj \<Rightarrow> jsval obj" where
  "diff a b =
     fold (\<lambda>k ret. if equals (get a k) (get b k) then ret else assign k (get b k) ret)
       (keys b) (literal [])"

section \<open>Strings\<close>

text \<open>
  \<^verbatim>\<open>String.prototype.toLowerCase\<close> on ASCII, the decimal numeral of a number, and the
  loop of \<^verbatim>\<open>Array.prototype.join\<close>: the result \<open>R\<close> starts empty; at every index
  \<open>k\<close> the separator is appended when \<open>k > 0\<close>, then the text of the element, which is
  empty for \<^verbatim>\<open>undefined\<close> and \<^verbatim>\<open>null\<close> and \<open>ToString\<close> of the element otherwise.
  An object that does not override \<^verbatim>\<open>toString\<close> reads \<^verbatim>\<open>[object Object]\<close>.
\<close>

definition toLowerCase :: "string \<Rightarrow> string" where
  "toLowerCase s = map (\<lambda>c. if 65 \<le> (of_char c :: nat) \<and> (of_char c :: nat) \<le> 90
                             then char_of ((of_char c :: nat) + 32) else c) s"

fun natToString :: "nat \<Rightarrow> string" where
  "natToString n = (if n < 10 then [''0123456789'' ! n]
                    else natToString (n div 10) @ [''0123456789'' ! (n mod 10)])"

declare natToString.simps [simp del]

definition numberToString :: "int \<Rightarrow> string" where
  "numberToString n =
     (if n < 0 then CHR ''-'' # natToString (nat (- n)) else natToString (nat n))"

fun joinLoop :: "string \<Rightarrow> string \<Rightarrow> nat \<Rightarrow> string list \<Rightarrow> string" where
  "joinLoop sep R k [] = R"
| "joinLoop sep R k (next # rest) =
     joinLoop sep ((if k > 0 then R @ sep else R) @ next) (Suc k) rest"

fun toString :: "jsval \<Rightarrow> string" where
  "toString Undefined = ''undefined''"
| "toString Null = ''null''"
| "toString (Bool b) = (if b then ''true'' else ''false'')"
| "toString (Num n) = numberToString n"
| "toString (Str s) = s"
| "toString (Arr xs) =
     joinLoop '','' [] 0 (map (\<lambda>x. if x = Undefined \<or> x = Null then [] else toString x) xs)"
| "toString (Obj ob) = ''[object Object]''"

definition join :: "jsval list \<Rightarrow> string \<Rightarrow> string" where
  "join xs sep =
     joinLoop sep [] 0 (map (\<lambda>x. if x = Undefined \<or> x = Null then [] else toString x) xs)"

section \<open>Deep clone\<close>

text \<open>
  Modelled from the spec: \<^verbatim>\<open>clone\<close>, which \<^verbatim>\<open>Utils.copy\<close> (lines 172 to 174) calls, is
  an external package. Section 4.2 of the specification: a new, independent graph with
  identical structure and leaf values.
\<close>

fun copy :: "jsval \<Rightarrow> jsval" where
  "copy (Arr xs) = Arr (map copy xs)"
| "copy (Obj (MkObj c i ps hs)) =
     Obj (MkObj c i (map (\<lambda>(k, v). (k, copy v)) ps) (map (\<lambda>(k, v). (k, copy v)) hs))"
| "copy v = v"

section \<open>Deep merge\<close>

text \<open>
  \<^verbatim>\<open>Utils.merge(target, ...sources)\<close>, lines 65 to 87. The function changes \<open>target\<close>
  in place and returns it; here it returns the target as the call leaves it. With no
  source left the target is returned. Otherwise the first source is taken off; when the
  target and the source are both objects, every entry \<^verbatim>\<open>[key, value]\<close> of
  \<^verbatim>\<open>Object.entries(source)\<close> is visited in order:
  \<^item> when \<open>value\<close> is an object other than a \<^verbatim>\<open>Date\<close>, a \<^verbatim>\<open>RegExp\<close> or a
    \<^verbatim>\<open>Buffer\<close>, the key is first created with \<^verbatim>\<open>{}\<close> unless \<^verbatim>\<open>key in target\<close>, and
    \<^verbatim>\<open>Utils.merge(target[key], value)\<close> then changes what the target holds at the key;
  \<^item> otherwise \<^verbatim>\<open>Object.assign(target, { [key]: value })\<close> stores the value.

  The rest of the sources follows by \<^verbatim>\<open>Utils.merge(target, ...sources)\<close>.
  \<open>mergeInto\<close> puts the object that the inner call has changed back where the read
  \<^verbatim>\<open>target[key]\<close> found it.
\<close>

fun mergeInto :: "string \<Rightarrow> jsval \<Rightarrow> jsval obj \<Rightarrow> jsval obj" where
  "mergeInto k v (MkObj c i ps hs) =
     (if k \<in> set (map fst ps) then MkObj c i (AList.update k v ps) hs
      else MkObj c i ps (AList.update k v hs))"

function merge :: "jsval \<Rightarrow> jsval list \<Rightarrow> jsval" where
  "merge target [] = target"
| "merge target (source # sources) =
     merge
       (case (target, source) of
          (Obj t, Obj s) \<Rightarrow>
            if isObject target [] \<and> isObject source [] then
              Obj (fold (\<lambda>(key, value) t.
                     if isObject value [Date, RegExp, Buffer] then
                       (let t = (if \<not> hasProperty key t then assign key (Obj (literal [])) t
                                 else t)
                        in mergeInto key (merge (get t key) [value]) t)
                     else assign key value t)
                   (own s) t)
            else target
        | _ \<Rightarrow> target)
       sources"
  by pat_completeness auto
termination
proof -
  have entry: "size v < Suc (size_list (size_prod (\<lambda>_. 0) size) ps)"
    if "(k, v) \<in> set ps" for k and v :: jsval and ps
    using that by (induction ps) auto
  have inner: "size v < size (Obj s)" if "(k, v) \<in> set (own s)" for k v s
    using entry [OF that] by (cases s) simp
  show ?thesis
    apply (relation "measure (\<lambda>(t, ss). size_list size ss)")
      apply simp
     apply (auto dest: inner)
    done
qed

declare merge.simps [simp del]

text \<open>The body of the loop over the entries of one source, under a name.\<close>

definition mergeEntry :: "string \<times> jsval \<Rightarrow> jsval obj \<Rightarrow> jsval obj" where
  "mergeEntry = (\<lambda>(key, value) t.
     if isObject value [Date, RegExp, Buffer] then
       (let t = (if \<not> hasProperty key t then assign key (Obj (literal [])) t else t)
        in mergeInto key (merge (get t key) [value]) t)
     else assign key value t)"

section \<open>Entities, references and primary keys\<close>

text \<open>
  What a call can raise: the \<^verbatim>\<open>TypeError\<close> of the language (a property read from
  \<^verbatim>\<open>undefined\<close> or \<^verbatim>\<open>null\<close>, a call of something that is not a function) and the
  error of the registry, with the argument it was asked for.
\<close>

datatype error = TypeError | MetadataError jsval

text \<open>
  A read \<^verbatim>\<open>v[k]\<close> on a value. In \<^verbatim>\<open>Utils.ts\<close> every such read stands behind a test
  (\<open>isObject\<close>, \<open>isEntity\<close>) that only an object passes.
\<close>

fun member :: "jsval \<Rightarrow> string \<Rightarrow> jsval" where
  "member (Obj ob) k = get ob k"
| "member v k = Undefined"

text \<open>
  \<^verbatim>\<open>o.constructor.name\<close> on an object. The read \<^verbatim>\<open>o.constructor\<close> finds a property of
  the object named \<^verbatim>\<open>constructor\<close> first, then the constructor the object inherits,
  and is \<^verbatim>\<open>undefined\<close> for an object without a prototype. The read of \<^verbatim>\<open>name\<close> from
  \<^verbatim>\<open>undefined\<close> or \<^verbatim>\<open>null\<close> raises; a constructor has its name, an object what it
  holds under \<^verbatim>\<open>name\<close>, and any other value nothing.
\<close>

fun nameOf :: "jsval \<Rightarrow> error + jsval" where
  "nameOf Undefined = Inl TypeError"
| "nameOf Null = Inl TypeError"
| "nameOf (Obj ob) = Inr (get ob ''name'')"
| "nameOf v = Inr Undefined"

definition constructorName :: "jsval obj \<Rightarrow> error + jsval" where
  "constructorName ob =
     (if hasProperty ''constructor'' ob then nameOf (get ob ''constructor'')
      else case ctor ob of Some n \<Rightarrow> Inr (Str n) | None \<Rightarrow> Inl TypeError)"

text \<open>
  The call \<^verbatim>\<open>v.toLowerCase()\<close>: a string has the method, every other value of this
  development raises (nothing to read from, or nothing to call).
\<close>

fun callToLowerCase :: "jsval \<Rightarrow> error + string" where
  "callToLowerCase (Str s) = Inr (toLowerCase s)"
| "callToLowerCase v = Inl TypeError"

text \<open>\<open>isReference\<close> (lines 287 to 289) and \<open>isEntity\<close> (lines 276 to 282).\<close>

definition isReference :: "jsval \<Rightarrow> bool" where
  "isReference data = instanceof data Reference"

definition isEntity :: "jsval \<Rightarrow> bool \<Rightarrow> bool" where
  "isEntity data allowReference =
     (if allowReference \<and> isReference data then True
      else isObject data [] \<and> truthy (member data ''__entity''))"

text \<open>
  \<open>isObjectID\<close> (lines 301 to 303): \<^verbatim>\<open>Utils.isObject(key) &&
  key.constructor.name.toLowerCase() === 'objectid'\<close>; the right operand is evaluated,
  and can raise, only for an object. \<open>isPrimaryKey\<close> (lines 236 to 238) asks
  \<open>isObjectID\<close> only for a value that is neither a string nor a number.
\<close>

definition isObjectID :: "jsval \<Rightarrow> error + bool" where
  "isObjectID key =
     (if isObject key [] then
        (case key of
           Obj ob \<Rightarrow>
             (case constructorName ob of
                Inl e \<Rightarrow> Inl e
              | Inr n \<Rightarrow> (case callToLowerCase n of
                           Inl e \<Rightarrow> Inl e
                         | Inr lower \<Rightarrow> Inr (lower = ''objectid'')))
         | _ \<Rightarrow> Inr False)
      else Inr False)"

definition isPrimaryKey :: "jsval \<Rightarrow> error + bool" where
  "isPrimaryKey key =
     (if isString key \<or> typeof key = ''number'' then Inr True else isObjectID key)"

subsection \<open>Metadata\<close>

text \<open>
  The descriptors come from \<^verbatim>\<open>../typings\<close>; the records hold the fields that
  \<^verbatim>\<open>Utils.ts\<close> reads. \<open>inversedBy\<close>, \<open>mappedBy\<close>, \<open>persist\<close> and \<open>customType\<close> may be
  left undefined; a custom type is its \<^verbatim>\<open>convertToDatabaseValue(value, platform)\<close>.
  \<open>properties\<close> lists \<^verbatim>\<open>Object.values(meta.properties)\<close>.

  The registry is taken through its only method used here, \<^verbatim>\<open>metadata.get(name)\<close>,
  which answers with the descriptor or raises for an argument it does not know; the
  argument is whatever value the caller read. \<^verbatim>\<open>wrap\<close>
  (from \<^verbatim>\<open>../entity\<close>) is taken through the two members read from its result,
  \<^verbatim>\<open>__meta\<close> and \<^verbatim>\<open>__serializedPrimaryKey\<close>.
\<close>

datatype ReferenceType = SCALAR | ONE_TO_ONE | ONE_TO_MANY | MANY_TO_ONE | MANY_TO_MANY

record 'p EntityProperty =
  name :: string
  type :: string
  primary :: bool
  reference :: ReferenceType
  owner :: bool
  inversedBy :: "string option"
  mappedBy :: "string option"
  persist :: "bool option"
  customType :: "(jsval \<Rightarrow> 'p \<Rightarrow> jsval) option"

record 'p EntityMetadata =
  primaryKey :: string
  primaryKeys :: "string list"
  compositePK :: bool
  serializedPrimaryKey :: string
  properties :: "'p EntityProperty list"

record 'p WrappedEntity =
  wrapped_meta :: "'p EntityMetadata option"
  wrapped_serializedPrimaryKey :: jsval

type_synonym 'p MetadataStorage = "jsval \<Rightarrow> error + 'p EntityMetadata"

subsection \<open>Primary keys\<close>

text \<open>\<open>getCompositeKeyHash\<close>, lines 263 to 271.\<close>

definition getCompositeKeyHash ::
  "(jsval \<Rightarrow> 'p WrappedEntity) \<Rightarrow> jsval obj \<Rightarrow> 'p EntityMetadata \<Rightarrow> string" where
  "getCompositeKeyHash wrap entity meta =
     join (map (\<lambda>pk. if isEntity (get entity pk) True
                      then wrapped_serializedPrimaryKey (wrap (get entity pk))
                      else get entity pk) (primaryKeys meta)) ''~''"

text \<open>
  \<open>extractPK\<close>, lines 243 to 261. \<^verbatim>\<open>a || b || null\<close> is the first of \<open>a\<close> and \<open>b\<close>
  that is truthy, and \<^verbatim>\<open>null\<close> when neither is. What \<open>isPrimaryKey\<close> raises, the
  call raises.
\<close>

definition extractPK ::
  "(jsval \<Rightarrow> 'p WrappedEntity) \<Rightarrow> jsval \<Rightarrow> 'p EntityMetadata option
   \<Rightarrow> error + jsval" where
  "extractPK wrap data meta =
     (case isPrimaryKey data of
        Inl e \<Rightarrow> Inl e
      | Inr True \<Rightarrow> Inr data
      | Inr False \<Rightarrow>
          let meta = (if isEntity data False \<and> meta = None then wrapped_meta (wrap data)
                      else meta)
          in case (data, meta) of
               (Obj ob, Some m) \<Rightarrow>
                 if isObject data [] then
                   (if compositePK m then Inr (Str (getCompositeKeyHash wrap ob m))
                    else if truthy (get ob (primaryKey m)) then Inr (get ob (primaryKey m))
                    else if truthy (get ob (serializedPrimaryKey m))
                         then Inr (get ob (serializedPrimaryKey m))
                    else Inr Null)
                 else Inr Null
             | _ \<Rightarrow> Inr Null)"

subsection \<open>The composite identity of the specification\<close>

text \<open>
  Section 3 of the specification, in its words: the identity of a composite key is the
  string built by joining the per-field identity values with a fixed separator, in the
  declared order of the key fields, where a field that holds an entity (or a reference to
  one) is resolved to the serialized identity of that entity. Section 7: a field that is
  \<^verbatim>\<open>null\<close> or \<^verbatim>\<open>undefined\<close> leaves an empty segment.
\<close>

fun separated :: "string \<Rightarrow> string list \<Rightarrow> string" where
  "separated sep [] = []"
| "separated sep [s] = s"
| "separated sep (s # t # ss) = s @ sep @ separated sep (t # ss)"

definition fieldIdentity :: "(jsval \<Rightarrow> 'p WrappedEntity) \<Rightarrow> jsval \<Rightarrow> string" where
  "fieldIdentity wrap v =
     (let identity = (if isEntity v True then wrapped_serializedPrimaryKey (wrap v) else v)
      in if identity = Undefined \<or> identity = Null then [] else toString identity)"

definition compositeIdentity ::
  "(jsval \<Rightarrow> 'p WrappedEntity) \<Rightarrow> jsval obj \<Rightarrow> string list \<Rightarrow> string" where
  "compositeIdentity wrap entity keyFields =
     separated ''~'' (map (\<lambda>field. fieldIdentity wrap (get entity field)) keyFields)"

section \<open>Entity normalizer\<close>

text \<open>
  \<^verbatim>\<open>Object.defineProperty(o, k, { value: v })\<close>: an own enumerable property \<open>k\<close> keeps
  its place and its attributes and takes the value; otherwise \<open>k\<close> becomes a property
  that \<^verbatim>\<open>Object.keys\<close> does not list.
\<close>

definition defineProperty :: "string \<Rightarrow> 'v \<Rightarrow> 'v obj \<Rightarrow> 'v obj" where
  "defineProperty k v ob =
     (if k \<in> set (keys ob) then MkObj (ctor ob) (inst ob) (AList.update k v (own ob)) (hid ob)
      else MkObj (ctor ob) (inst ob) (own ob) (AList.update k v (hid ob)))"

text \<open>\<^verbatim>\<open>xs.forEach(f)\<close> over a state, stopping at the first exception.\<close>

fun forEach :: "('a \<Rightarrow> 's \<Rightarrow> error + 's) \<Rightarrow> 'a list \<Rightarrow> 's \<Rightarrow> error + 's" where
  "forEach f [] s = Inr s"
| "forEach f (x # xs) s = (case f x s of Inl e \<Rightarrow> Inl e | Inr s' \<Rightarrow> forEach f xs s')"

definition stringTruthy :: "string option \<Rightarrow> bool" where
  "stringTruthy s = (case s of None \<Rightarrow> False | Some t \<Rightarrow> t \<noteq> [])"

text \<open>
  \<open>shouldIgnoreProperty\<close>, lines 151 to 167. The constants are computed in the order of
  the source; only \<open>noPkRef\<close> can raise, through \<^verbatim>\<open>metadata.get(prop.type)\<close>, and it
  asks the registry only when the value is an entity.
\<close>

definition shouldIgnoreProperty ::
  "'p MetadataStorage \<Rightarrow> jsval obj \<Rightarrow> 'p EntityProperty \<Rightarrow> error + bool" where
  "shouldIgnoreProperty metadata entity prop =
     (if \<not> hasProperty (name prop) entity then Inr True
      else
        let value = get entity (name prop);
            collection = instanceof value ArrayCollection;
            noPkProp = (primary prop \<and> \<not> truthy value);
            inverse = (reference prop = ONE_TO_ONE \<and> \<not> owner prop);
            isSetter = (reference prop \<in> set [ONE_TO_ONE, MANY_TO_ONE]
                        \<and> (stringTruthy (inversedBy prop) \<or> stringTruthy (mappedBy prop)));
            emptyRef = (isSetter \<and> value = Undefined)
        in case (if isEntity value False
                 then (case metadata (Str (type prop)) of
                         Inl e \<Rightarrow> Inl e
                       | Inr m \<Rightarrow> Inr (\<not> truthy (member value (primaryKey m))))
                 else Inr False) of
             Inl e \<Rightarrow> Inl e
           | Inr noPkRef \<Rightarrow>
               Inr (collection \<or> noPkProp \<or> noPkRef \<or> inverse \<or> emptyRef
                    \<or> persist prop = Some False))"

text \<open>The callback of the loop of \<open>prepareEntity\<close>, lines 126 to 144.\<close>

definition prepareProperty ::
  "'p MetadataStorage \<Rightarrow> 'p \<Rightarrow> jsval obj \<Rightarrow> 'p EntityProperty \<Rightarrow> jsval obj
   \<Rightarrow> error + jsval obj" where
  "prepareProperty metadata platform entity prop ret =
     (case shouldIgnoreProperty metadata entity prop of
        Inl e \<Rightarrow> Inl e
      | Inr True \<Rightarrow> Inr ret
      | Inr False \<Rightarrow>
          let value = get entity (name prop) in
          if isEntity value True
          then (case metadata (Str (type prop)) of
                  Inl e \<Rightarrow> Inl e
                | Inr m \<Rightarrow> Inr (assign (name prop) (member value (primaryKey m)) ret))
          else (case customType prop of
                  Some convertToDatabaseValue \<Rightarrow>
                    Inr (assign (name prop) (convertToDatabaseValue value platform) ret)
                | None \<Rightarrow>
                    if isArray value \<or> isObject value []
                    then Inr (assign (name prop) (copy value) ret)
                    else Inr (assign (name prop) value ret)))"

text \<open>\<open>prepareEntity\<close>, lines 117 to 149. Line 122 reads \<^verbatim>\<open>entity.constructor.name\<close> and
  hands what it read to the registry.\<close>

definition prepareEntity ::
  "'p MetadataStorage \<Rightarrow> 'p \<Rightarrow> jsval obj \<Rightarrow> error + jsval obj" where
  "prepareEntity metadata platform entity =
     (if truthy (get entity ''__prepared'') then Inr entity
      else case constructorName entity of
        Inl e \<Rightarrow> Inl e
      | Inr className \<Rightarrow>
          (case metadata className of
             Inl e \<Rightarrow> Inl e
           | Inr meta \<Rightarrow>
               (case forEach (prepareProperty metadata platform entity) (properties meta)
                       (literal []) of
                  Inl e \<Rightarrow> Inl e
                | Inr ret \<Rightarrow> Inr (defineProperty ''__prepared'' (Bool True) ret))))"

text \<open>\<open>diffEntities\<close>, lines 109 to 111.\<close>

definition diffEntities ::
  "'p MetadataStorage \<Rightarrow> 'p \<Rightarrow> jsval obj \<Rightarrow> jsval obj \<Rightarrow> error + jsval obj" where
  "diffEntities metadata platform a b =
     (case prepareEntity metadata platform a of
        Inl e \<Rightarrow> Inl e
      | Inr a' \<Rightarrow> (case prepareEntity metadata platform b of
                     Inl e \<Rightarrow> Inl e
                   | Inr b' \<Rightarrow> Inr (diff a' b')))"

section \<open>Sample data\<close>

definition snapshotA :: "jsval obj" where
  "snapshotA = literal [(''x'', Num 1), (''y'', Num 2)]"

definition snapshotB :: "jsval obj" where
  "snapshotB = literal [(''x'', Num 1), (''y'', Num 3), (''z'', Num 4)]"

text \<open>
  The entities and descriptors of the examples below. An entity instance finds
  \<^verbatim>\<open>__entity\<close> on its class; a \<^verbatim>\<open>Reference\<close> holds the entity in its field and
  answers for the key of the entity through a getter. The platform is not looked at.
\<close>

definition scalarProperty :: "string \<Rightarrow> unit EntityProperty" where
  "scalarProperty n = \<lparr>name = n, type = ''string'', primary = False, reference = SCALAR,
     owner = False, inversedBy = None, mappedBy = None, persist = None, customType = None\<rparr>"

definition primaryProperty :: "string \<Rightarrow> unit EntityProperty" where
  "primaryProperty n = (scalarProperty n)\<lparr>type := ''number'', primary := True\<rparr>"

definition referenceProperty :: "string \<Rightarrow> string \<Rightarrow> unit EntityProperty" where
  "referenceProperty n t = (scalarProperty n)\<lparr>type := t, reference := MANY_TO_ONE, owner := True\<rparr>"

definition authorMeta :: "unit EntityMetadata" where
  "authorMeta = \<lparr>primaryKey = ''id'', primaryKeys = [''id''], compositePK = False,
     serializedPrimaryKey = ''id'',
     properties = [primaryProperty ''id'', scalarProperty ''name'']\<rparr>"

definition bookMeta :: "unit EntityMetadata" where
  "bookMeta = \<lparr>primaryKey = ''id'', primaryKeys = [''id''], compositePK = False,
     serializedPrimaryKey = ''id'',
     properties = [primaryProperty ''id'', scalarProperty ''title'',
       referenceProperty ''author'' ''Author'']\<rparr>"

definition seatMeta :: "unit EntityMetadata" where
  "seatMeta = \<lparr>primaryKey = ''a'', primaryKeys = [''a'', ''b''], compositePK = True,
     serializedPrimaryKey = ''a'',
     properties = [primaryProperty ''a'', primaryProperty ''b'']\<rparr>"

definition ticketMeta :: "unit EntityMetadata" where
  "ticketMeta = \<lparr>primaryKey = ''id'', primaryKeys = [''id''], compositePK = False,
     serializedPrimaryKey = ''id'',
     properties = [primaryProperty ''id'', referenceProperty ''seat'' ''Seat'']\<rparr>"

definition flaggedMeta :: "unit EntityMetadata" where
  "flaggedMeta = \<lparr>primaryKey = ''id'', primaryKeys = [''id''], compositePK = False,
     serializedPrimaryKey = ''id'',
     properties = [primaryProperty ''id'', scalarProperty ''__prepared'']\<rparr>"

definition registry :: "unit MetadataStorage" where
  "registry n =
     (if n = Str ''Author'' then Inr authorMeta
      else if n = Str ''Book'' then Inr bookMeta
      else if n = Str ''Seat'' then Inr seatMeta
      else if n = Str ''Ticket'' then Inr ticketMeta
      else if n = Str ''Flagged'' then Inr flaggedMeta
      else Inl (MetadataError n))"

definition entityOf :: "string \<Rightarrow> (string \<times> jsval) list \<Rightarrow> jsval obj" where
  "entityOf cls ps = MkObj (Some cls) [] ps [(''__entity'', Bool True)]"

definition newAuthor :: "jsval obj" where
  "newAuthor = entityOf ''Author'' [(''name'', Str ''Ann'')]"

definition savedAuthor :: "jsval obj" where
  "savedAuthor = entityOf ''Author'' [(''id'', Num 5), (''name'', Str ''Ann'')]"

definition wrapped :: "jsval obj \<Rightarrow> jsval obj" where
  "wrapped e =
     MkObj (Some ''Reference'') [Reference] [(''entity'', Obj e)] [(''id'', get e ''id'')]"

definition book :: "jsval \<Rightarrow> jsval obj" where
  "book author = entityOf ''Book'' [(''title'', Str ''Emma''), (''author'', author)]"

definition seat :: "jsval obj" where
  "seat = entityOf ''Seat'' [(''a'', Num 1), (''b'', Str ''x'')]"

definition otherSeat :: "jsval obj" where
  "otherSeat = entityOf ''Seat'' [(''a'', Num 1), (''b'', Str ''y'')]"

definition ticketFor :: "jsval obj \<Rightarrow> jsval obj" where
  "ticketFor s = entityOf ''Ticket'' [(''id'', Num 7), (''seat'', Obj s)]"

text \<open>\<^verbatim>\<open>Object.create(null)\<close> with the fields \<open>ps\<close>.\<close>

definition bare :: "(string \<times> 'v) list \<Rightarrow> 'v obj" where
  "bare ps = MkObj None [] ps []"

definition flagged :: "jsval obj" where
  "flagged = entityOf ''Flagged'' [(''id'', Num 1), (''__prepared'', Bool False)]"

definition prepared :: "(string \<times> jsval) list \<Rightarrow> jsval obj" where
  "prepared ps = MkObj (Some ''Object'') [] ps [(''__prepared'', Bool True)]"

definition documentMeta :: "unit EntityMetadata" where
  "documentMeta = \<lparr>primaryKey = ''_id'', primaryKeys = [''_id''], compositePK = False,
     serializedPrimaryKey = ''id'',
     properties = [primaryProperty ''_id'', scalarProperty ''id'']\<rparr>"

definition noWrap :: "jsval \<Rightarrow> unit WrappedEntity" where
  "noWrap v = \<lparr>wrapped_meta = None, wrapped_serializedPrimaryKey = Undefined\<rparr>"

section \<open>Properties of the object operations\<close>

lemma equals_Undefined: "equals Undefined v = (v = Undefined)"
  by (cases v) auto

lemma update_fresh: "k \<notin> fst ` set ps \<Longrightarrow> AList.update k v ps = ps @ [(k, v)]"
  by (induction ps) auto

lemma insertIndex_last:
  "\<forall>k' \<in> fst ` set ps. isArrayIndex k' \<and> digitsVal k' < digitsVal k
   \<Longrightarrow> insertIndex k v ps = ps @ [(k, v)]"
  by (induction ps) auto

lemma setOwn_last:
  assumes "\<forall>k' \<in> fst ` set ps. keyBefore k' k" and "k \<notin> fst ` set ps"
  shows "setOwn k v ps = ps @ [(k, v)]"
proof (cases "isArrayIndex k")
  case True
  with assms(1) have "\<forall>k' \<in> fst ` set ps. isArrayIndex k' \<and> digitsVal k' < digitsVal k"
    by (simp add: keyBefore_def)
  then have "insertIndex k v ps = ps @ [(k, v)]"
    by (rule insertIndex_last)
  with True assms(2) show ?thesis
    by (simp add: setOwn_def)
next
  case False
  with assms(2) show ?thesis
    by (simp add: setOwn_def update_fresh)
qed

lemma get_own: "distinct (map fst (own b)) \<Longrightarrow> (k, v) \<in> set (own b) \<Longrightarrow> get b k = v"
  by (simp add: get_def)

lemma map_of_insertIndex:
  "k \<notin> fst ` set ps \<Longrightarrow> map_of (insertIndex k v ps) = (map_of ps)(k \<mapsto> v)"
  by (induction ps) (auto simp: fun_upd_twist)

lemma map_of_setOwn: "map_of (setOwn k v ps) = (map_of ps)(k \<mapsto> v)"
  by (simp add: setOwn_def map_of_insertIndex update_conv')

lemma keys_insertIndex: "fst ` set (insertIndex k v ps) = insert k (fst ` set ps)"
  by (induction ps) auto

lemma keys_setOwn: "fst ` set (setOwn k v ps) = insert k (fst ` set ps)"
  by (simp add: setOwn_def keys_insertIndex dom_update)

lemma get_assign: "get (assign k v ob) k' = (if k' = k then v else get ob k')"
  by (simp add: get_def assign_def map_of_setOwn split: option.splits)

lemma keys_assign: "set (keys (assign k v ob)) = insert k (set (keys ob))"
  by (simp add: keys_def assign_def keys_setOwn)

lemma hid_assign: "hid (assign k v ob) = hid ob"
  by (simp add: assign_def)

lemma hasProperty_assign: "hasProperty k' (assign k v ob) = (k' = k \<or> hasProperty k' ob)"
  by (auto simp: hasProperty_def keys_assign hid_assign)

lemma get_defineProperty: "get (defineProperty k v ob) k' = (if k' = k then v else get ob k')"
proof (cases "k \<in> set (keys ob)")
  case True
  then show ?thesis
    by (simp add: get_def defineProperty_def update_conv' split: option.splits)
next
  case False
  then have "map_of (own ob) k = None"
    by (simp add: keys_def map_of_eq_None_iff)
  with False show ?thesis
    by (auto simp: get_def defineProperty_def update_conv' split: option.splits)
qed

lemma keys_defineProperty: "set (keys (defineProperty k v ob)) = set (keys ob)"
  by (auto simp: defineProperty_def keys_def dom_update)

section \<open>Properties of the differ\<close>

text \<open>
  The loop of \<open>diff\<close>, started in the middle: when the keys of \<open>pre\<close> have been
  visited and have left their entries that differ, the keys of \<open>rest\<close> append theirs.
\<close>

lemma diff_loop:
  assumes "distinct (map fst (pre @ rest))" and "keyOrdered (map fst (pre @ rest))"
    and "\<forall>(k, v) \<in> set rest. get b k = v"
  shows "fold (\<lambda>k ret. if equals (get a k) (get b k) then ret else assign k (get b k) ret)
           (map fst rest) (literal (filter (\<lambda>(k, v). \<not> equals (get a k) v) pre))
         = literal (filter (\<lambda>(k, v). \<not> equals (get a k) v) (pre @ rest))"
  using assms
proof (induction rest arbitrary: pre)
  case Nil
  then show ?case by simp
next
  case (Cons p rest)
  obtain k v where p: "p = (k, v)" by (cases p)
  let ?P = "\<lambda>(k, v). \<not> equals (get a k) v"
  have gk: "get b k = v"
    using Cons.prems(3) p by simp
  have fresh: "k \<notin> fst ` set (filter ?P pre)"
    using Cons.prems(1) p by auto
  have before: "\<forall>k' \<in> fst ` set (filter ?P pre). keyBefore k' k"
    using Cons.prems(2) p by (auto simp: keyOrdered_def sorted_wrt_append)
  have step: "(if equals (get a k) (get b k) then literal (filter ?P pre)
               else assign k (get b k) (literal (filter ?P pre)))
              = literal (filter ?P (pre @ [p]))"
    using setOwn_last [OF before fresh, of v] gk p
    by (simp add: assign_def literal_def)
  have "distinct (map fst ((pre @ [p]) @ rest))" "keyOrdered (map fst ((pre @ [p]) @ rest))"
    "\<forall>(k, v) \<in> set rest. get b k = v"
    using Cons.prems by simp_all
  from Cons.IH [OF this] step p show ?case
    by simp
qed

lemma diff_filter:
  assumes "ownProperties (own b)"
  shows "diff a b = literal (filter (\<lambda>(k, v). \<not> equals (get a k) v) (own b))"
proof -
  have "\<forall>(k, v) \<in> set (own b). get b k = v"
    using assms by (auto simp: ownProperties_def get_own)
  with assms diff_loop [of "[]" "own b" b a] show ?thesis
    by (simp add: diff_def keys_def ownProperties_def)
qed

lemma get_absent: "\<not> hasProperty k a \<Longrightarrow> get a k = Undefined"
  by (auto simp: hasProperty_def keys_def get_def split: option.splits dest: map_of_SomeD
      intro: rev_image_eqI)

lemma snapshotB_ownProperties: "ownProperties (own snapshotB)"
  by (simp add: snapshotB_def literal_def ownProperties_def keyOrdered_def keyBefore_def
      isArrayIndex_def isDigit_def)

text \<open>
  C2, as the code has it. For every snapshot \<open>a\<close> and every snapshot \<open>b\<close> (an object
  that exists: no key twice, keys in the order of the language), \<open>diff a b\<close> holds
  exactly the entries \<open>(k, b[k])\<close> of \<open>b\<close> for which \<open>equals (a[k]) (b[k])\<close> is false,
  in the order \<open>b\<close> has them, where \<open>a[k]\<close> reads \<^verbatim>\<open>undefined\<close> when \<open>a\<close> has no \<open>k\<close>.
  So a field that \<open>a\<close> lacks is in the result exactly when \<open>b\<close> holds something other
  than \<^verbatim>\<open>undefined\<close> under it, a field that only \<open>a\<close> has never is, and
  \<open>diff {x:1, y:2} {x:1, y:3, z:4} = {y:3, z:4}\<close>.
\<close>

theorem diff_changed_fields:
  assumes "ownProperties (own b)"
  shows "own (diff a b) = filter (\<lambda>(k, v). \<not> equals (get a k) v) (own b)
       \<and> (\<forall>k. \<not> hasProperty k a \<longrightarrow>
              (k \<in> set (keys (diff a b))) = (k \<in> set (keys b) \<and> get b k \<noteq> Undefined))
       \<and> set (keys (diff a b)) \<subseteq> set (keys b)
       \<and> diff snapshotA snapshotB = literal [(''y'', Num 3), (''z'', Num 4)]"
proof -
  let ?P = "\<lambda>(k, v). \<not> equals (get a k) v"
  have d: "diff a b = literal (filter ?P (own b))"
    using assms by (rule diff_filter)
  have dist: "distinct (map fst (own b))"
    using assms by (simp add: ownProperties_def)
  have 1: "own (diff a b) = filter ?P (own b)"
    using d by (simp add: literal_def)
  have 2: "(k \<in> set (keys (diff a b))) = (k \<in> set (keys b) \<and> get b k \<noteq> Undefined)"
    if "\<not> hasProperty k a" for k
  proof -
    have ga: "get a k = Undefined"
      using that by (rule get_absent)
    have "(k \<in> set (keys (diff a b))) = (\<exists>v. (k, v) \<in> set (own b) \<and> v \<noteq> Undefined)"
      using ga by (auto simp: keys_def 1 equals_Undefined image_iff)
    also have "\<dots> = (k \<in> set (keys b) \<and> get b k \<noteq> Undefined)"
      using dist by (force simp: keys_def get_own)
    finally show ?thesis .
  qed
  have 3: "set (keys (diff a b)) \<subseteq> set (keys b)"
    by (auto simp: keys_def 1)
  have 4: "diff snapshotA snapshotB = literal [(''y'', Num 3), (''z'', Num 4)]"
    by (simp add: snapshotA_def snapshotB_def diff_def keys_def literal_def get_def
        assign_def setOwn_def isArrayIndex_def isDigit_def)
  from 1 2 3 4 show ?thesis by blast
qed

theorem diff_changed_fields_witness:
  "ownProperties (own snapshotB)
   \<and> own (diff snapshotA snapshotB) = [(''y'', Num 3), (''z'', Num 4)]
   \<and> ''z'' \<in> set (keys (diff snapshotA snapshotB))
   \<and> ''w'' \<notin> set (keys (diff snapshotA snapshotB))"
  using diff_changed_fields [OF snapshotB_ownProperties, of snapshotA]
  by (simp add: snapshotB_ownProperties literal_def keys_def)

text \<open>
  C2, as stated, fails: the field \<open>z\<close> of \<open>{z: undefined}\<close> is absent from \<open>{}\<close>, and
  \<open>diff {} {z: undefined}\<close> does not hold it.
\<close>

theorem diff_absent_field_counterexample:
  "\<not> hasProperty ''z'' (literal [])
   \<and> ''z'' \<in> set (keys (literal [(''z'', Undefined)]))
   \<and> ''z'' \<notin> set (keys (diff (literal []) (literal [(''z'', Undefined)])))"
  by (simp add: hasProperty_def keys_def literal_def diff_def get_def)

section \<open>Evaluating the examples\<close>

lemmas sample_defs = scalarProperty_def primaryProperty_def referenceProperty_def
  authorMeta_def bookMeta_def seatMeta_def ticketMeta_def flaggedMeta_def documentMeta_def
  registry_def entityOf_def newAuthor_def savedAuthor_def wrapped_def book_def seat_def
  otherSeat_def ticketFor_def flagged_def prepared_def bare_def noWrap_def

lemmas eval_defs = prepareEntity_def prepareProperty_def shouldIgnoreProperty_def
  constructorName_def isEntity_def isReference_def isObject_def get_def hasProperty_def
  keys_def assign_def setOwn_def defineProperty_def literal_def isArrayIndex_def isDigit_def
  stringTruthy_def Let_def

lemma numberToString_1: "numberToString 1 = ''1''"
  by (simp add: numberToString_def natToString.simps)

lemmas key_defs = extractPK_def isPrimaryKey_def isString_def isObjectID_def toLowerCase_def
  getCompositeKeyHash_def join_def numberToString_1

section \<open>Properties of the entity normalizer\<close>

lemma prepareProperty_cases:
  assumes "prepareProperty metadata platform entity prop ret = Inr ret'"
  shows "ret' = ret \<or> (\<exists>v. ret' = assign (name prop) v ret)"
  using assms
  by (auto simp: prepareProperty_def Let_def split: sum.splits bool.splits if_splits option.splits)

lemma forEach_keys:
  assumes "forEach (prepareProperty metadata platform entity) props ret = Inr ret'"
  shows "set (keys ret') \<subseteq> set (keys ret) \<union> name ` set props"
  using assms
proof (induction props arbitrary: ret)
  case Nil
  then show ?case by simp
next
  case (Cons p props)
  from Cons.prems obtain r where
    step: "prepareProperty metadata platform entity p ret = Inr r"
    and rest: "forEach (prepareProperty metadata platform entity) props r = Inr ret'"
    by (auto split: sum.splits)
  from prepareProperty_cases [OF step] have "set (keys r) \<subseteq> insert (name p) (set (keys ret))"
    by (auto simp: keys_assign)
  with Cons.IH [OF rest] show ?case
    by auto
qed

lemma truthy_prepared:
  assumes "prepareEntity metadata platform entity = Inr snapshot"
  shows "truthy (get snapshot ''__prepared'')"
  using assms
  by (auto simp: prepareEntity_def get_defineProperty split: if_splits sum.splits)

text \<open>The tests that stand before the reads \<^verbatim>\<open>v[k]\<close> let only objects through.\<close>

lemma isEntity_Obj: "isEntity v allowReference \<Longrightarrow> \<exists>ob. v = Obj ob"
  by (cases v) (auto simp: isEntity_def isReference_def isObject_def split: if_splits)

lemma diff_keys_subset: "set (keys (diff a b)) \<subseteq> set (keys b)"
proof -
  have "set (keys (fold (\<lambda>k ret. if equals (get a k) (get b k) then ret
                                  else assign k (get b k) ret) ks r))
        \<subseteq> set (keys r) \<union> set ks" for ks and r :: "jsval obj"
  proof (induction ks arbitrary: r)
    case Nil
    show ?case by simp
  next
    case (Cons k ks)
    show ?case
      using Cons.IH [of "if equals (get a k) (get b k) then r else assign k (get b k) r"]
      by (auto simp: keys_assign split: if_splits)
  qed
  from this [of "keys b" "literal []"] show ?thesis
    by (simp add: diff_def keys_def literal_def)
qed

text \<open>
  C1. \<open>prepareEntity\<close> is idempotent, for every registry, platform and entity:
  normalizing what \<open>prepareEntity\<close> returned gives it back (and when the first call
  raises, so does the composition); and an entity on which \<^verbatim>\<open>__prepared\<close> reads truthy
  is returned unchanged.
\<close>

theorem prepareEntity_idempotent:
  "(case prepareEntity metadata platform e of
      Inl err \<Rightarrow> Inl err
    | Inr snapshot \<Rightarrow> prepareEntity metadata platform snapshot)
   = prepareEntity metadata platform e
   \<and> (truthy (get e ''__prepared'') \<longrightarrow> prepareEntity metadata platform e = Inr e)"
proof -
  have 1: "prepareEntity metadata platform s = Inr s"
    if "prepareEntity metadata platform e = Inr s" for s
    using truthy_prepared [OF that] by (simp add: prepareEntity_def)
  have 2: "truthy (get e ''__prepared'') \<longrightarrow> prepareEntity metadata platform e = Inr e"
    by (simp add: prepareEntity_def)
  from 1 2 show ?thesis
    by (auto split: sum.splits)
qed

theorem prepareEntity_idempotent_witness:
  "truthy (get (prepared [(''title'', Str ''Emma'')]) ''__prepared'')
   \<and> prepareEntity registry () (prepared [(''title'', Str ''Emma'')])
       = Inr (prepared [(''title'', Str ''Emma'')])
   \<and> (case prepareEntity registry () (book (Obj newAuthor)) of
         Inl err \<Rightarrow> Inl err
       | Inr snapshot \<Rightarrow> prepareEntity registry () snapshot)
       = Inr (prepared [(''title'', Str ''Emma'')])"
proof -
  have t: "truthy (get (prepared [(''title'', Str ''Emma'')]) ''__prepared'')"
    by (simp add: prepared_def get_def)
  have v: "prepareEntity registry () (book (Obj newAuthor))
           = Inr (prepared [(''title'', Str ''Emma'')])"
    by (simp add: sample_defs eval_defs)
  from prepareEntity_idempotent [of registry "()" "prepared [(''title'', Str ''Emma'')]"]
    prepareEntity_idempotent [of registry "()" "book (Obj newAuthor)"] t v
  show ?thesis
    by metis
qed

text \<open>
  C3 at a reference to an entity with a composite key. The seat has the key fields
  \<open>a = 1\<close> and \<open>b = "x"\<close>, and the primary key resolver gives its composite identity
  \<open>"1~x"\<close>; the snapshot of the ticket holds \<open>1\<close>, the value of the one field that the
  metadata names as \<open>primaryKey\<close>. A ticket for the seat \<open>(1, "y")\<close> has the same
  snapshot, and \<open>diffEntities\<close> between the two tickets is empty.
\<close>

theorem prepareEntity_composite_reference:
  "isEntity (get (ticketFor seat) ''seat'') True
   \<and> registry (Str ''Seat'') = Inr seatMeta \<and> compositePK seatMeta
   \<and> extractPK noWrap (get (ticketFor seat) ''seat'') (Some seatMeta) = Inr (Str ''1~x'')
   \<and> extractPK noWrap (get (ticketFor otherSeat) ''seat'') (Some seatMeta) = Inr (Str ''1~y'')
   \<and> prepareEntity registry () (ticketFor seat)
       = Inr (prepared [(''id'', Num 7), (''seat'', Num 1)])
   \<and> prepareEntity registry () (ticketFor otherSeat)
       = Inr (prepared [(''id'', Num 7), (''seat'', Num 1)])
   \<and> diffEntities registry () (ticketFor seat) (ticketFor otherSeat) = Inr (literal [])"
proof -
  have 1: "isEntity (get (ticketFor seat) ''seat'') True
     \<and> registry (Str ''Seat'') = Inr seatMeta \<and> compositePK seatMeta"
    by (simp add: sample_defs eval_defs)
  have 2: "extractPK noWrap (get (ticketFor seat) ''seat'') (Some seatMeta) = Inr (Str ''1~x'')
     \<and> extractPK noWrap (get (ticketFor otherSeat) ''seat'') (Some seatMeta) = Inr (Str ''1~y'')"
    by (simp add: sample_defs eval_defs key_defs)
  have 3: "prepareEntity registry () (ticketFor seat)
       = Inr (prepared [(''id'', Num 7), (''seat'', Num 1)])"
    and 4: "prepareEntity registry () (ticketFor otherSeat)
       = Inr (prepared [(''id'', Num 7), (''seat'', Num 1)])"
    by (simp_all add: sample_defs eval_defs)
  have 5: "diff (prepared [(''id'', Num 7), (''seat'', Num 1)])
             (prepared [(''id'', Num 7), (''seat'', Num 1)]) = literal []"
    by (simp add: diff_def prepared_def keys_def get_def literal_def)
  from 1 2 3 4 5 show ?thesis
    by (simp add: diffEntities_def)
qed

text \<open>
  C4 at a reference held through a \<^verbatim>\<open>Reference\<close> wrapper whose entity has no key yet:
  the snapshot keeps the field \<open>author\<close>, with \<^verbatim>\<open>undefined\<close>. The same entity held
  directly is dropped, and with the key assigned the field holds the key.
\<close>

theorem prepareEntity_unsaved_wrapped_reference:
  "isReference (Obj (wrapped newAuthor))
   \<and> \<not> truthy (member (Obj (wrapped newAuthor)) (primaryKey authorMeta))
   \<and> prepareEntity registry () (book (Obj (wrapped newAuthor)))
       = Inr (prepared [(''title'', Str ''Emma''), (''author'', Undefined)])
   \<and> ''author'' \<in> set (keys (prepared [(''title'', Str ''Emma''), (''author'', Undefined)]))
   \<and> prepareEntity registry () (book (Obj newAuthor))
       = Inr (prepared [(''title'', Str ''Emma'')])
   \<and> prepareEntity registry () (book (Obj savedAuthor))
       = Inr (prepared [(''title'', Str ''Emma''), (''author'', Num 5)])
   \<and> prepareEntity registry () (book (Obj (wrapped savedAuthor)))
       = Inr (prepared [(''title'', Str ''Emma''), (''author'', Num 5)])"
  by (simp add: sample_defs eval_defs)

text \<open>
  C9, as the code has it. When \<open>prepareEntity\<close> returns a snapshot of an entity that
  does not carry the marker yet, every key of the snapshot is the name of a property
  declared in the metadata of the entity; and when no declared property is named
  \<^verbatim>\<open>__prepared\<close>, the marker is not among the keys of the snapshot, reads \<^verbatim>\<open>true\<close>, and
  is not among the keys of a \<open>diff\<close> against the snapshot.
\<close>

theorem prepareEntity_keys_declared:
  assumes "prepareEntity metadata platform e = Inr snapshot"
    and "\<not> truthy (get e ''__prepared'')"
    and "constructorName e = Inr className" and "metadata className = Inr meta"
  shows "set (keys snapshot) \<subseteq> name ` set (properties meta)
       \<and> (''__prepared'' \<notin> name ` set (properties meta) \<longrightarrow>
            ''__prepared'' \<notin> set (keys snapshot)
            \<and> get snapshot ''__prepared'' = Bool True
            \<and> ''__prepared'' \<notin> set (keys (diff a snapshot)))"
proof -
  from assms obtain ret where
    loop: "forEach (prepareProperty metadata platform e) (properties meta) (literal []) = Inr ret"
    and snap: "snapshot = defineProperty ''__prepared'' (Bool True) ret"
    by (auto simp: prepareEntity_def split: sum.splits)
  have "set (keys (literal [] :: jsval obj)) = {}"
    by (simp add: keys_def literal_def)
  with forEach_keys [OF loop] have "set (keys ret) \<subseteq> name ` set (properties meta)"
    by simp
  with snap have sub: "set (keys snapshot) \<subseteq> name ` set (properties meta)"
    by (simp add: keys_defineProperty)
  have marker: "get snapshot ''__prepared'' = Bool True"
    using snap by (simp add: get_defineProperty)
  from sub marker diff_keys_subset [of a snapshot] show ?thesis
    by auto
qed

theorem prepareEntity_keys_declared_witness:
  "prepareEntity registry () (book (Obj savedAuthor))
     = Inr (prepared [(''title'', Str ''Emma''), (''author'', Num 5)])
   \<and> \<not> truthy (get (book (Obj savedAuthor)) ''__prepared'')
   \<and> constructorName (book (Obj savedAuthor)) = Inr (Str ''Book'')
   \<and> registry (Str ''Book'') = Inr bookMeta
   \<and> ''__prepared'' \<notin> name ` set (properties bookMeta)
   \<and> set (keys (prepared [(''title'', Str ''Emma''), (''author'', Num 5)]))
       \<subseteq> name ` set (properties bookMeta)
   \<and> ''__prepared'' \<notin> set (keys (prepared [(''title'', Str ''Emma''), (''author'', Num 5)]))
   \<and> ''__prepared'' \<notin> set (keys (diff (literal [])
         (prepared [(''title'', Str ''Emma''), (''author'', Num 5)])))"
proof -
  have 1: "prepareEntity registry () (book (Obj savedAuthor))
     = Inr (prepared [(''title'', Str ''Emma''), (''author'', Num 5)])"
    by (simp add: sample_defs eval_defs)
  have 2: "\<not> truthy (get (book (Obj savedAuthor)) ''__prepared'')"
    by (simp add: sample_defs eval_defs)
  have 3: "constructorName (book (Obj savedAuthor)) = Inr (Str ''Book'')"
    by (simp add: sample_defs eval_defs)
  have r: "registry (Str ''Book'') = Inr bookMeta"
    by (simp add: registry_def)
  have 4: "''__prepared'' \<notin> name ` set (properties bookMeta)"
    by (simp add: sample_defs)
  from prepareEntity_keys_declared [OF 1 2 3 r, of "literal []"] 1 2 3 r 4 show ?thesis
    by blast
qed

text \<open>
  C9, as stated, fails when the metadata declares a property \<^verbatim>\<open>__prepared\<close>: the loop
  stores it as an enumerable field, and \<^verbatim>\<open>Object.defineProperty\<close> then changes the
  value of that field and leaves it enumerable.
\<close>

theorem prepareEntity_marker_enumerable_counterexample:
  "\<not> truthy (get flagged ''__prepared'')
   \<and> prepareEntity registry () flagged
       = Inr (MkObj (Some ''Object'') [] [(''id'', Num 1), (''__prepared'', Bool True)] [])
   \<and> ''__prepared'' \<in> set (keys (MkObj (Some ''Object'') [] [(''id'', Num 1), (''__prepared'', Bool True)] []))"
  by (simp add: sample_defs eval_defs)

section \<open>Properties of the primary key resolver\<close>

lemma joinLoop_separated:
  "joinLoop sep R k ss =
     (if ss = [] then R else if k = 0 then R @ separated sep ss else R @ sep @ separated sep ss)"
proof (induction ss arbitrary: R k)
  case Nil
  show ?case by simp
next
  case (Cons s ss)
  have "joinLoop sep R k (s # ss) = joinLoop sep ((if k > 0 then R @ sep else R) @ s) (Suc k) ss"
    by simp
  also have "\<dots> = (if ss = [] then (if k > 0 then R @ sep else R) @ s
                    else (if k > 0 then R @ sep else R) @ s @ sep @ separated sep ss)"
    by (simp add: Cons.IH)
  also have "\<dots> = (if k = 0 then R @ separated sep (s # ss)
                    else R @ sep @ separated sep (s # ss))"
    by (cases ss) simp_all
  finally show ?case
    by simp
qed

lemma join_separated:
  "join xs sep = separated sep (map (\<lambda>x. if x = Undefined \<or> x = Null then [] else toString x) xs)"
  by (simp add: join_def joinLoop_separated)

lemma getCompositeKeyHash_compositeIdentity:
  "getCompositeKeyHash wrap entity meta = compositeIdentity wrap entity (primaryKeys meta)"
  by (simp add: getCompositeKeyHash_def compositeIdentity_def join_separated fieldIdentity_def
      Let_def comp_def)

lemma get_permuted:
  assumes "distinct (map fst (own entity))" and "distinct (map fst (own entity'))"
    and "set (own entity') = set (own entity)" and "hid entity' = hid entity"
  shows "get entity' = get entity"
proof -
  have "map_of (own entity') = map_of (own entity)"
    using assms(1-3) by (simp add: map_of_inject_set)
  with assms(4) show ?thesis
    by (simp add: get_def fun_eq_iff split: option.splits)
qed

text \<open>
  C5. For every entity and metadata, \<open>getCompositeKeyHash\<close> is the composite identity
  of the specification: the per-field identity values, a field that holds an entity
  reference resolved to the serialized identity of that entity, joined with \<open>~\<close> in the
  declared order of the key fields. The result does not depend on the order in which the
  instance lists its fields; for the key fields \<open>[a, b]\<close> with \<open>a = 1\<close> and
  \<open>b = "x"\<close> it is \<open>"1~x"\<close>, in either order of the fields.
\<close>

theorem getCompositeKeyHash_declared_order:
  "getCompositeKeyHash wrap entity meta = compositeIdentity wrap entity (primaryKeys meta)
   \<and> (distinct (map fst (own entity)) \<and> distinct (map fst (own entity'))
        \<and> set (own entity') = set (own entity) \<and> hid entity' = hid entity
       \<longrightarrow> getCompositeKeyHash wrap entity' meta = getCompositeKeyHash wrap entity meta)
   \<and> getCompositeKeyHash wrap (literal [(''a'', Num 1), (''b'', Str ''x'')])
        (meta\<lparr>primaryKeys := [''a'', ''b'']\<rparr>) = ''1~x''
   \<and> getCompositeKeyHash wrap (literal [(''b'', Str ''x''), (''a'', Num 1)])
        (meta\<lparr>primaryKeys := [''a'', ''b'']\<rparr>) = ''1~x''"
proof -
  have 1: "getCompositeKeyHash wrap entity meta = compositeIdentity wrap entity (primaryKeys meta)"
    by (rule getCompositeKeyHash_compositeIdentity)
  have 2: "getCompositeKeyHash wrap entity' meta = getCompositeKeyHash wrap entity meta"
    if "distinct (map fst (own entity))" "distinct (map fst (own entity'))"
      "set (own entity') = set (own entity)" "hid entity' = hid entity"
    using get_permuted [OF that] by (simp add: getCompositeKeyHash_def cong: if_cong)
  have 3: "getCompositeKeyHash wrap (literal [(''a'', Num 1), (''b'', Str ''x'')])
        (meta\<lparr>primaryKeys := [''a'', ''b'']\<rparr>) = ''1~x''"
    by (simp add: getCompositeKeyHash_def join_def literal_def get_def isEntity_def
        isReference_def isObject_def numberToString_1)
  have 4: "getCompositeKeyHash wrap (literal [(''b'', Str ''x''), (''a'', Num 1)])
        (meta\<lparr>primaryKeys := [''a'', ''b'']\<rparr>) = ''1~x''"
    by (simp add: getCompositeKeyHash_def join_def literal_def get_def isEntity_def
        isReference_def isObject_def numberToString_1)
  from 1 2 3 4 show ?thesis by blast
qed

theorem getCompositeKeyHash_declared_order_witness:
  "distinct (map fst (own seat))
   \<and> distinct (map fst (own (entityOf ''Seat'' [(''b'', Str ''x''), (''a'', Num 1)])))
   \<and> set (own (entityOf ''Seat'' [(''b'', Str ''x''), (''a'', Num 1)])) = set (own seat)
   \<and> hid (entityOf ''Seat'' [(''b'', Str ''x''), (''a'', Num 1)]) = hid seat
   \<and> getCompositeKeyHash noWrap (entityOf ''Seat'' [(''b'', Str ''x''), (''a'', Num 1)]) seatMeta
       = getCompositeKeyHash noWrap seat seatMeta
   \<and> getCompositeKeyHash noWrap seat seatMeta = ''1~x''"
proof -
  let ?seat' = "entityOf ''Seat'' [(''b'', Str ''x''), (''a'', Num 1)]"
  have h: "distinct (map fst (own seat)) \<and> distinct (map fst (own ?seat'))
        \<and> set (own ?seat') = set (own seat) \<and> hid ?seat' = hid seat"
    by (auto simp: seat_def entityOf_def)
  have v: "getCompositeKeyHash noWrap seat seatMeta = ''1~x''"
    by (simp add: getCompositeKeyHash_def join_def seat_def entityOf_def seatMeta_def get_def
        isEntity_def isReference_def isObject_def numberToString_1)
  from getCompositeKeyHash_declared_order [of noWrap seat seatMeta ?seat'] h v show ?thesis
    by blast
qed

lemma fieldIdentity_nothing: "v = Null \<or> v = Undefined \<Longrightarrow> fieldIdentity wrap v = []"
  by (auto simp: fieldIdentity_def isEntity_def isReference_def isObject_def)

text \<open>
  C8. A key field of a composite key that reads \<^verbatim>\<open>null\<close> or \<^verbatim>\<open>undefined\<close> does not
  make \<open>getCompositeKeyHash\<close> fail: the result is the joined string in which that
  field has the empty segment and every other field its identity; \<open>{a: 1, b: null}\<close>
  gives \<open>"1~"\<close> and a missing \<open>a\<close> gives \<open>"~x"\<close>.
\<close>

theorem getCompositeKeyHash_null_field:
  assumes "get entity pk = Null \<or> get entity pk = Undefined"
  shows "getCompositeKeyHash wrap entity (meta\<lparr>primaryKeys := before @ pk # after\<rparr>)
         = separated ''~'' (map (\<lambda>field. fieldIdentity wrap (get entity field)) before
                            @ [] # map (\<lambda>field. fieldIdentity wrap (get entity field)) after)
       \<and> getCompositeKeyHash wrap (literal [(''a'', Num 1), (''b'', Null)])
           (meta\<lparr>primaryKeys := [''a'', ''b'']\<rparr>) = ''1~''
       \<and> getCompositeKeyHash wrap (literal [(''b'', Str ''x'')])
           (meta\<lparr>primaryKeys := [''a'', ''b'']\<rparr>) = ''~x''"
proof -
  have 1: "getCompositeKeyHash wrap entity (meta\<lparr>primaryKeys := before @ pk # after\<rparr>)
         = separated ''~'' (map (\<lambda>field. fieldIdentity wrap (get entity field)) before
                            @ [] # map (\<lambda>field. fieldIdentity wrap (get entity field)) after)"
    using fieldIdentity_nothing [OF assms, of wrap]
    by (simp add: getCompositeKeyHash_compositeIdentity compositeIdentity_def)
  have 2: "getCompositeKeyHash wrap (literal [(''a'', Num 1), (''b'', Null)])
           (meta\<lparr>primaryKeys := [''a'', ''b'']\<rparr>) = ''1~''"
    by (simp add: getCompositeKeyHash_def join_def literal_def get_def isEntity_def
        isReference_def isObject_def numberToString_1)
  have 3: "getCompositeKeyHash wrap (literal [(''b'', Str ''x'')])
           (meta\<lparr>primaryKeys := [''a'', ''b'']\<rparr>) = ''~x''"
    by (simp add: getCompositeKeyHash_def join_def literal_def get_def isEntity_def
        isReference_def isObject_def)
  from 1 2 3 show ?thesis by blast
qed

theorem getCompositeKeyHash_null_field_witness:
  "(get (entityOf ''Seat'' [(''a'', Num 1), (''b'', Null)]) ''b'' = Null
    \<or> get (entityOf ''Seat'' [(''a'', Num 1), (''b'', Null)]) ''b'' = Undefined)
   \<and> getCompositeKeyHash noWrap (entityOf ''Seat'' [(''a'', Num 1), (''b'', Null)]) seatMeta
       = ''1~''"
proof -
  let ?e = "entityOf ''Seat'' [(''a'', Num 1), (''b'', Null)]"
  have h: "get ?e ''b'' = Null \<or> get ?e ''b'' = Undefined"
    by (simp add: entityOf_def get_def)
  have a: "fieldIdentity noWrap (get ?e ''a'') = ''1''"
    by (simp add: fieldIdentity_def entityOf_def get_def isEntity_def isReference_def
        isObject_def numberToString_1)
  have m: "seatMeta\<lparr>primaryKeys := [] @ ''a'' # [''b'']\<rparr> = seatMeta"
    by (simp add: seatMeta_def)
  from getCompositeKeyHash_null_field [OF h, where wrap = noWrap and meta = seatMeta
      and before = "[''a'']" and after = "[]"] a h
  show ?thesis
    by (simp add: seatMeta_def)
qed

lemma isObjectID_not_object: "\<not> isObject key [] \<Longrightarrow> isObjectID key = Inr False"
  by (simp add: isObjectID_def)




section \<open>Properties of the deep merge\<close>

lemma isObject_Obj: "isObject (Obj ob) []"
  by (simp add: isObject_def)

lemma isObject_iff: "isObject v [] = (\<exists>ob. v = Obj ob)"
  by (cases v) (simp_all add: isObject_def)

lemma merge_Nil: "merge target [] = target"
  by (simp add: merge.simps)

lemma merge_Cons_objects:
  "merge (Obj t) (Obj s # sources) = merge (Obj (fold mergeEntry (own s) t)) sources"
  by (simp add: merge.simps isObject_Obj mergeEntry_def)

lemma merge_Cons_other:
  "\<not> isObject target [] \<or> \<not> isObject source [] \<Longrightarrow>
   merge target (source # sources) = merge target sources"
  by (auto simp: merge.simps isObject_iff split: jsval.splits)


lemma merge_not_object: "\<not> isObject target [] \<Longrightarrow> merge target sources = target"
  by (induction sources) (simp_all add: merge_Nil merge_Cons_other)

lemma get_mergeInto: "get (mergeInto k x t) k' = (if k' = k then x else get t k')"
proof (cases t)
  case (MkObj c i ps hs)
  show ?thesis
  proof (cases "k \<in> set (map fst ps)")
    case True
    with MkObj show ?thesis
      by (simp add: get_def update_conv' split: option.splits)
  next
    case False
    then have "map_of ps k = None"
      by (simp add: map_of_eq_None_iff)
    with False MkObj show ?thesis
      by (auto simp: get_def update_conv' split: option.splits)
  qed
qed

lemma hasProperty_mergeInto: "hasProperty k' (mergeInto k x t) = (k' = k \<or> hasProperty k' t)"
  by (cases t) (auto simp: hasProperty_def keys_def dom_update)






lemma get_mergeEntry_other:
  "k \<noteq> fst e \<Longrightarrow> get (mergeEntry e t) k = get t k"
  by (cases e) (simp add: mergeEntry_def Let_def get_mergeInto get_assign)

lemma hasProperty_mergeEntry_other:
  "k \<noteq> fst e \<Longrightarrow> hasProperty k (mergeEntry e t) = hasProperty k t"
  by (cases e) (simp add: mergeEntry_def Let_def hasProperty_mergeInto hasProperty_assign)

lemma get_mergeEntry_same:
  "get (mergeEntry (k, v) t) k =
     (if isObject v [Date, RegExp, Buffer]
      then merge (if hasProperty k t then get t k else Obj (literal [])) [v] else v)"
  by (simp add: mergeEntry_def Let_def get_mergeInto get_assign)

lemma fold_mergeEntry_other:
  "k \<notin> fst ` set es \<Longrightarrow>
   get (fold mergeEntry es t) k = get t k
   \<and> hasProperty k (fold mergeEntry es t) = hasProperty k t"
  by (induction es arbitrary: t)
    (simp_all add: get_mergeEntry_other hasProperty_mergeEntry_other)

lemma fold_mergeEntry_entry:
  assumes "distinct (map fst es)" and "(k, v) \<in> set es"
  shows "get (fold mergeEntry es t) k =
     (if isObject v [Date, RegExp, Buffer]
      then merge (if hasProperty k t then get t k else Obj (literal [])) [v] else v)"
  using assms
proof (induction es arbitrary: t)
  case Nil
  then show ?case by simp
next
  case (Cons e es)
  show ?case
  proof (cases "e = (k, v)")
    case True
    with Cons.prems(1) have "k \<notin> fst ` set es"
      by auto
    from fold_mergeEntry_other [OF this, of "mergeEntry (k, v) t"] True show ?thesis
      by (simp add: get_mergeEntry_same)
  next
    case False
    with Cons.prems have in_rest: "(k, v) \<in> set es" and d: "distinct (map fst es)"
      and other: "k \<noteq> fst e"
      by (auto simp: image_iff)
    from Cons.IH [OF d in_rest, of "mergeEntry e t"] other show ?thesis
      by (simp add: get_mergeEntry_other hasProperty_mergeEntry_other)
  qed
qed





lemmas merge_eval = merge.simps isObject_def literal_def assign_def setOwn_def isArrayIndex_def
  isDigit_def hasProperty_def keys_def get_def



text \<open>
  C10. When the target has the key \<open>k\<close> with a value that is not an object and the
  source holds a plain structure under \<open>k\<close>, \<open>merge\<close> leaves the value of the target
  under \<open>k\<close> as it was.
\<close>

theorem merge_non_object_target:
  assumes "distinct (map fst (own s))" and "(k, v) \<in> set (own s)"
    and "isObject v [Date, RegExp, Buffer]"
    and "hasProperty k t" and "\<not> isObject (get t k) []"
  shows "\<exists>r. merge (Obj t) [Obj s] = Obj r \<and> get r k = get t k"
proof -
  have "get (fold mergeEntry (own s) t) k = merge (get t k) [v]"
    using fold_mergeEntry_entry [OF assms(1,2), of t] assms(3,4) by simp
  also have "\<dots> = get t k"
    using assms(5) by (rule merge_not_object)
  finally show ?thesis
    by (simp add: merge_Cons_objects merge_Nil)
qed

theorem merge_non_object_target_witness:
  "distinct (map fst (own (literal [(''a'', Obj (literal [(''b'', Num 2)]))])))
   \<and> (''a'', Obj (literal [(''b'', Num 2)]))
        \<in> set (own (literal [(''a'', Obj (literal [(''b'', Num 2)]))]))
   \<and> isObject (Obj (literal [(''b'', Num 2)])) [Date, RegExp, Buffer]
   \<and> hasProperty ''a'' (literal [(''a'', Num 1)])
   \<and> \<not> isObject (get (literal [(''a'', Num 1)]) ''a'') []
   \<and> merge (Obj (literal [(''a'', Num 1)])) [Obj (literal [(''a'', Obj (literal [(''b'', Num 2)]))])]
       = Obj (literal [(''a'', Num 1)])"
proof -
  let ?s = "literal [(''a'', Obj (literal [(''b'', Num 2)]))]"
  let ?t = "literal [(''a'', Num 1)] :: jsval obj"
  have 1: "distinct (map fst (own ?s))" and 2: "(''a'', Obj (literal [(''b'', Num 2)])) \<in> set (own ?s)"
    and 3: "isObject (Obj (literal [(''b'', Num 2)])) [Date, RegExp, Buffer]"
    and 4: "hasProperty ''a'' ?t" and 5: "\<not> isObject (get ?t ''a'') []"
    by (simp_all add: literal_def isObject_def hasProperty_def keys_def get_def)
  have e: "merge (Obj ?t) [Obj ?s] = Obj ?t"
    by (simp add: merge_eval)
  from merge_non_object_target [OF 1 2 3 4 5] 1 2 3 4 5 e show ?thesis
    by blast
qed

end
